theory Spec2Isabelle
  imports Main "HOL-Library.AList"
begin

section \<open>The session manager of packages/services/src/session/manager.ts\<close>

text \<open>
  The class \<^verbatim>\<open>SessionManager\<close> keeps a map of session models in step with the
  server's list of sessions and fans every change out to the session connections it
  has handed out. Its methods are asynchronous; each one is embedded as a function
  that takes the server's state and the manager's state and returns the outcome of
  the promise (\<open>Inl\<close> a rejection, \<open>Inr\<close> a fulfilment) with both states updated.
  Everything the manager does to its collaborators (a REST call, a call of
  \<^verbatim>\<open>update\<close> or \<^verbatim>\<open>dispose\<close> on a connection, a signal it emits) is appended
  to a log kept in the manager's state, in the order in which it happens.
\<close>

subsection \<open>Data\<close>

text \<open>
  Modelled from the spec: \<^verbatim>\<open>Session.IModel\<close>, which is declared in session.ts. A
  session model is a unique identifier, a resource path and an optional descriptor of
  the attached kernel (identifier and type). Models are JSON objects, and
  \<^verbatim>\<open>JSONExt.deepEqual\<close> on two of them is structural equality, which is \<open>=\<close> on
  the record. The field \<^verbatim>\<open>id\<close> is called \<open>model_id\<close>, since \<open>id\<close> is the identity
  function of HOL.
\<close>

record kernel_model =
  kernel_id :: string
  kernel_name :: string

record model =
  model_id :: string
  model_path :: string
  model_kernel :: "kernel_model option"

text \<open>
  Modelled from the spec: what a REST call is rejected with. The list operation fails
  with a \<^verbatim>\<open>ServerConnection.NetworkError\<close> or with an error that carries the
  HTTP response (and so its status); any other exception has no response.
  \<^verbatim>\<open>err instanceof ServerConnection.NetworkError\<close> and
  \<^verbatim>\<open>err.response.status\<close> are the two things \<^verbatim>\<open>requestRunning\<close> asks of it.
  \<open>TypeError\<close> is the exception of the JavaScript engine itself, thrown when an
  operator is applied to \<^verbatim>\<open>undefined\<close>; no REST call is rejected with it.
\<close>

datatype error =
    NetworkError string
  | ResponseError nat string
  | OtherError string
  | TypeError

fun instanceofNetworkError :: "error \<Rightarrow> bool" where
  "instanceofNetworkError (NetworkError _) = True"
| "instanceofNetworkError _ = False"

fun response_status :: "error \<Rightarrow> nat option" where
  "response_status (ResponseError status _) = Some status"
| "response_status _ = None"

text \<open>
  A session connection, as far as the manager looks at it: the object's identity
  (\<open>handle\<close>) and the session identifier it is bound to (\<^verbatim>\<open>sc.id\<close>).
\<close>

record connection =
  handle :: nat
  sc_id :: string

text \<open>
  The entries of the log: the REST calls \<^verbatim>\<open>listRunning(...)\<close> and
  \<^verbatim>\<open>shutdownSession(id, ...)\<close>; \<^verbatim>\<open>sc.update(model)\<close> and \<^verbatim>\<open>sc.dispose()\<close>
  on the connection with the given handle; a refresh that is requested and not
  awaited; \<^verbatim>\<open>this._pollModels.dispose()\<close>; and the two signals,
  \<^verbatim>\<open>_runningChanged.emit(models)\<close> and \<^verbatim>\<open>_connectionFailure.emit(err)\<close>.
\<close>

datatype event =
    ListRunning
  | ShutdownSession string
  | ConnectionUpdate nat model
  | ConnectionDispose nat
  | RefreshRequested
  | PollDispose
  | RunningChanged "model list"
  | ConnectionFailure error

text \<open>
  The private fields of the manager. \<^verbatim>\<open>_models\<close> is a JavaScript \<^verbatim>\<open>Map\<close>,
  which iterates in insertion order: an association list with one pair per key.
  \<^verbatim>\<open>_sessionConnections\<close> is a \<^verbatim>\<open>Set\<close>, a list in insertion order.
\<close>

record manager =
  models :: "(string \<times> model) list"
  sessionConnections :: "connection list"
  isDisposed :: bool
  trace :: "event list"

text \<open>
  The collaborators that are not part of manager.ts are parameters. The REST
  functions of restapi.ts act on a server state of any type \<open>'srv\<close> and are
  fulfilled or rejected. Of the Poller, \<open>pollTick\<close> maps the outcome of the run that
  \<^verbatim>\<open>refresh()\<close> triggered to what a caller awaiting \<^verbatim>\<open>tick\<close> sees: the
  identity for a Poller that hands a failed run's error on, a constant for one that
  keeps it to itself.
\<close>

record 'srv services =
  listRunning :: "'srv \<Rightarrow> (error + model list) \<times> 'srv"
  shutdownSession :: "string \<Rightarrow> 'srv \<Rightarrow> (error + unit) \<times> 'srv"
  pollTick :: "error + unit \<Rightarrow> error + unit"

definition emit :: "event \<Rightarrow> manager \<Rightarrow> manager" where
  "emit e m = m\<lparr>trace := trace m @ [e]\<rparr>"

subsection \<open>The map of models\<close>

text \<open>
  \<^verbatim>\<open>new Map(models.map(x => [x.id, x]))\<close>: the pairs are set one after the other;
  setting a key that is there already replaces its value and keeps its place, which
  is what \<open>AList.update\<close> does.
\<close>

definition new_Map :: "model list \<Rightarrow> (string \<times> model) list" where
  "new_Map ms = fold (\<lambda>x al. AList.update (model_id x) x al) ms []"

text \<open>
  \<^verbatim>\<open>JSONExt.deepEqual(first, second)\<close> as \<^verbatim>\<open>requestRunning\<close> calls it:
  \<^verbatim>\<open>first\<close> is \<^verbatim>\<open>this._models.get(x.id)\<close>, a model or, for a key the map does
  not have, \<^verbatim>\<open>undefined\<close>; \<^verbatim>\<open>second\<close> is a fetched model. The cast
  \<^verbatim>\<open>as unknown as JSONObject\<close> lets \<^verbatim>\<open>undefined\<close> through unchecked. On two
  models the result is whether they are equal. On \<^verbatim>\<open>undefined\<close> and a model the
  function does not return: comparing the keys it evaluates \<^verbatim>\<open>key in first\<close>, and
  \<^verbatim>\<open>in\<close> on \<^verbatim>\<open>undefined\<close> throws a \<^verbatim>\<open>TypeError\<close>.
\<close>

definition deepEqual :: "model option \<Rightarrow> model \<Rightarrow> error + bool" where
  "deepEqual first second =
     (case first of
        None \<Rightarrow> Inl TypeError
      | Some y \<Rightarrow> Inr (y = second))"

text \<open>
  \<^verbatim>\<open>every(models, fn)\<close>: the elements are tested in order; the first one for
  which \<^verbatim>\<open>fn\<close> is false ends the iteration with false, and an exception thrown
  by \<^verbatim>\<open>fn\<close> ends it with that exception.
\<close>

fun every :: "'a list \<Rightarrow> ('a \<Rightarrow> error + bool) \<Rightarrow> error + bool" where
  "every [] fn = Inr True"
| "every (x # xs) fn =
     (case fn x of
        Inl err \<Rightarrow> Inl err
      | Inr b \<Rightarrow> if b then every xs fn else Inr False)"

text \<open>
  The condition of the \<^verbatim>\<open>if\<close> that guards the early return of
  \<^verbatim>\<open>requestRunning\<close>, which its comment calls the identical models list:
  \<^verbatim>\<open>this._models.size === models.length && every(models, x => JSONExt.deepEqual(this._models.get(x.id), x))\<close>.
  \<^verbatim>\<open>&&\<close> evaluates its right operand only when the left one is true.
\<close>

definition identical :: "(string \<times> model) list \<Rightarrow> model list \<Rightarrow> error + bool" where
  "identical al fetched =
     (if length al = length fetched
      then every fetched (\<lambda>x. deepEqual (map_of al (model_id x)) x)
      else Inr False)"

text \<open>\<^verbatim>\<open>running()\<close>: the values of the map, in the map's order.\<close>

definition running :: "manager \<Rightarrow> model list" where
  "running m = map snd (models m)"

subsection \<open>Connections\<close>

text \<open>
  \<^verbatim>\<open>_onDisposed\<close>, the slot connected to every connection's \<^verbatim>\<open>disposed\<close> signal
  by \<^verbatim>\<open>_onStarted\<close>: the connection leaves the set and a refresh is requested but
  not awaited (\<^verbatim>\<open>void this.refreshRunning()\<close>); when that refresh runs is the
  Poller's business, so it is only logged.
\<close>

definition onDisposed :: "connection \<Rightarrow> manager \<Rightarrow> manager" where
  "onDisposed sc m =
     emit RefreshRequested (m\<lparr>sessionConnections := removeAll sc (sessionConnections m)\<rparr>)"

text \<open>
  Modelled from the spec: \<^verbatim>\<open>sc.dispose()\<close> of \<^verbatim>\<open>SessionConnection\<close>
  (default.ts). Disposing a session connection fires its disposal notification, to
  which the manager has subscribed with \<^verbatim>\<open>_onDisposed\<close>.
\<close>

definition sc_dispose :: "connection \<Rightarrow> manager \<Rightarrow> manager" where
  "sc_dispose sc m = onDisposed sc (emit (ConnectionDispose (handle sc)) m)"

text \<open>
  Modelled from the spec: \<^verbatim>\<open>sc.update(model)\<close> of \<^verbatim>\<open>SessionConnection\<close>, the
  mutator that pushes a model into the connection. The call is logged; what the
  connection does with the model is its own affair.
\<close>

definition sc_update :: "connection \<Rightarrow> model \<Rightarrow> manager \<Rightarrow> manager" where
  "sc_update sc x m = emit (ConnectionUpdate (handle sc) x) m"

text \<open>
  The models that the connection with handle \<open>h\<close> was given in calls of
  \<^verbatim>\<open>update\<close>, read off a log.
\<close>

fun updates_of :: "nat \<Rightarrow> event list \<Rightarrow> model list" where
  "updates_of h [] = []"
| "updates_of h (ConnectionUpdate h' x # es) =
     (if h' = h then x # updates_of h es else updates_of h es)"
| "updates_of h (_ # es) = updates_of h es"

subsection \<open>dispose\<close>

text \<open>
  \<^verbatim>\<open>dispose()\<close>. Its last statement, \<^verbatim>\<open>super.dispose()\<close>, is
  \<^verbatim>\<open>BaseManager.dispose\<close> (basemanager.ts), modelled from the spec: it marks the
  manager disposed.
\<close>

definition dispose :: "manager \<Rightarrow> manager" where
  "dispose m =
     (let m1 = m\<lparr>models := []\<rparr>;
          m2 = fold sc_dispose (sessionConnections m1) m1;
          m3 = emit PollDispose m2
      in m3\<lparr>isDisposed := True\<rparr>)"

subsection \<open>requestRunning and refreshRunning\<close>

text \<open>The callback of \<^verbatim>\<open>this._sessionConnections.forEach\<close> in \<^verbatim>\<open>requestRunning\<close>.\<close>

definition reconcile :: "connection \<Rightarrow> manager \<Rightarrow> manager" where
  "reconcile sc m =
     (case map_of (models m) (sc_id sc) of
        Some x \<Rightarrow> sc_update sc x m
      | None \<Rightarrow> sc_dispose sc m)"

text \<open>
  \<^verbatim>\<open>requestRunning\<close>. Only the list call stands inside \<^verbatim>\<open>try\<close>: an exception
  thrown by the test for an identical list is not caught and rejects the call, after
  the check of \<^verbatim>\<open>isDisposed\<close> and before anything is changed.
\<close>

fun requestRunning ::
  "'srv services \<Rightarrow> 'srv \<times> manager \<Rightarrow> (error + unit) \<times> 'srv \<times> manager" where
  "requestRunning env (srv, m0) =
     (let m = emit ListRunning m0 in
      (case listRunning env srv of
         (Inl err, srv') \<Rightarrow>
           (if instanceofNetworkError err \<or> response_status err = Some 503
            then (Inl err, srv', emit (ConnectionFailure err) m)
            else (Inl err, srv', m))
       | (Inr fetched, srv') \<Rightarrow>
           (if isDisposed m then (Inr (), srv', m)
            else
              (case identical (models m) fetched of
                 Inl err \<Rightarrow> (Inl err, srv', m)
               | Inr same \<Rightarrow>
                   (if same then (Inr (), srv', m)
                    else
                      (let m1 = m\<lparr>models := new_Map fetched\<rparr>;
                           m2 = fold reconcile (sessionConnections m1) m1
                       in (Inr (), srv', emit (RunningChanged fetched) m2)))))))"

text \<open>
  Modelled from the spec: the Poller (\<^verbatim>\<open>Poll\<close> of coreutils) under
  \<^verbatim>\<open>refreshRunning\<close>, which awaits \<^verbatim>\<open>this._pollModels.refresh()\<close> and then
  \<^verbatim>\<open>this._pollModels.tick\<close>. The Poller runs its factory, which the constructor
  sets to \<^verbatim>\<open>requestRunning\<close>, once and at once, and \<^verbatim>\<open>tick\<close> settles when
  that run has completed.
\<close>

definition refreshRunning ::
  "'srv services \<Rightarrow> 'srv \<times> manager \<Rightarrow> (error + unit) \<times> 'srv \<times> manager" where
  "refreshRunning env s =
     (case requestRunning env s of (r, s') \<Rightarrow> (pollTick env r, s'))"

subsection \<open>shutdown, shutdownAll and stopIfNeeded\<close>

text \<open>
  \<^verbatim>\<open>shutdown\<close>: the stop call is awaited first; a rejection leaves the function
  there, and only a fulfilment reaches \<^verbatim>\<open>refreshRunning\<close>.
\<close>

fun shutdown ::
  "'srv services \<Rightarrow> string \<Rightarrow> 'srv \<times> manager \<Rightarrow> (error + unit) \<times> 'srv \<times> manager" where
  "shutdown env i (srv, m) =
     (case shutdownSession env i srv of
        (Inl err, srv') \<Rightarrow> (Inl err, srv', emit (ShutdownSession i) m)
      | (Inr _, srv') \<Rightarrow> refreshRunning env (srv', emit (ShutdownSession i) m))"

text \<open>
  \<^verbatim>\<open>[...this._models.keys()].map(id => shutdownSession(id, ...))\<close>: one stop
  call per key, issued in the order of the keys; the server handles them in that
  order. The list of outcomes is in the same order.
\<close>

fun shutdownEach ::
  "'srv services \<Rightarrow> string list \<Rightarrow> 'srv \<times> manager \<Rightarrow> (error + unit) list \<times> 'srv \<times> manager" where
  "shutdownEach env [] s = ([], s)"
| "shutdownEach env (i # is) (srv, m) =
     (case shutdownSession env i srv of
        (r, srv') \<Rightarrow>
          (case shutdownEach env is (srv', emit (ShutdownSession i) m) of
             (rs, s') \<Rightarrow> (r # rs, s')))"

text \<open>
  \<^verbatim>\<open>Promise.all\<close> is rejected with the first rejection among its promises and is
  fulfilled when all of them are.
\<close>

fun Promise_all :: "(error + unit) list \<Rightarrow> error + unit" where
  "Promise_all [] = Inr ()"
| "Promise_all (Inl err # rs) = Inl err"
| "Promise_all (Inr _ # rs) = Promise_all rs"

fun shutdownAll ::
  "'srv services \<Rightarrow> 'srv \<times> manager \<Rightarrow> (error + unit) \<times> 'srv \<times> manager" where
  "shutdownAll env s =
     (case refreshRunning env s of
        (Inl err, s1) \<Rightarrow> (Inl err, s1)
      | (Inr _, (srv1, m1)) \<Rightarrow>
          (case shutdownEach env (map fst (models m1)) (srv1, m1) of
             (rs, s2) \<Rightarrow>
               (case Promise_all rs of
                  Inl err \<Rightarrow> (Inl err, s2)
                | Inr _ \<Rightarrow> refreshRunning env s2)))"

text \<open>
  \<^verbatim>\<open>stopIfNeeded\<close> lists the sessions with the REST function itself, not through
  the Poller, and catches whatever the body throws.
\<close>

fun stopIfNeeded ::
  "'srv services \<Rightarrow> string \<Rightarrow> 'srv \<times> manager \<Rightarrow> (error + unit) \<times> 'srv \<times> manager" where
  "stopIfNeeded env p (srv, m) =
     (case listRunning env srv of
        (Inl err, srv') \<Rightarrow> (Inr (), srv', emit ListRunning m)
      | (Inr sessions, srv') \<Rightarrow>
          (case filter (\<lambda>value. model_path value = p) sessions of
             [x] \<Rightarrow>
               (case shutdown env (model_id x) (srv', emit ListRunning m) of
                  (_, s') \<Rightarrow> (Inr (), s'))
           | _ \<Rightarrow> (Inr (), srv', emit ListRunning m)))"

subsection \<open>findById and findByPath\<close>

text \<open>\<^verbatim>\<open>undefined\<close> is \<open>None\<close>.\<close>

fun findById ::
  "'srv services \<Rightarrow> string \<Rightarrow> 'srv \<times> manager \<Rightarrow> (error + model option) \<times> 'srv \<times> manager" where
  "findById env i (srv, m) =
     (if map_of (models m) i \<noteq> None then (Inr (map_of (models m) i), srv, m)
      else
        (case refreshRunning env (srv, m) of
           (Inl err, s') \<Rightarrow> (Inl err, s')
         | (Inr _, (srv', m')) \<Rightarrow> (Inr (map_of (models m') i), srv', m')))"

fun findByPath ::
  "'srv services \<Rightarrow> string \<Rightarrow> 'srv \<times> manager \<Rightarrow> (error + model option) \<times> 'srv \<times> manager" where
  "findByPath env p (srv, m) =
     (case find (\<lambda>x. model_path x = p) (map snd (models m)) of
        Some x \<Rightarrow> (Inr (Some x), srv, m)
      | None \<Rightarrow>
          (case refreshRunning env (srv, m) of
             (Inl err, s') \<Rightarrow> (Inl err, s')
           | (Inr _, (srv', m')) \<Rightarrow>
               (Inr (find (\<lambda>x. model_path x = p) (map snd (models m'))), srv', m')))"

subsection \<open>A server and sessions for the examples\<close>

text \<open>
  Modelled from the spec: the Remote Session API (restapi.ts). \<^verbatim>\<open>list()\<close> returns the
  server's sessions or fails; \<^verbatim>\<open>stop(id)\<close> fails, or succeeds and the session is
  gone from the server. Which calls fail is part of the server's state. In \<open>rest\<close>
  the Poller hands the outcome of the run to the caller of \<^verbatim>\<open>refreshRunning\<close>.
\<close>

record server =
  sessions :: "model list"
  list_failure :: "error option"
  stop_failures :: "(string \<times> error) list"

definition server_list :: "server \<Rightarrow> (error + model list) \<times> server" where
  "server_list srv =
     (case list_failure srv of
        Some err \<Rightarrow> (Inl err, srv)
      | None \<Rightarrow> (Inr (sessions srv), srv))"

definition server_stop :: "string \<Rightarrow> server \<Rightarrow> (error + unit) \<times> server" where
  "server_stop i srv =
     (case map_of (stop_failures srv) i of
        Some err \<Rightarrow> (Inl err, srv)
      | None \<Rightarrow> (Inr (), srv\<lparr>sessions := filter (\<lambda>x. model_id x \<noteq> i) (sessions srv)\<rparr>))"

definition rest :: "server services" where
  "rest = \<lparr>listRunning = server_list, shutdownSession = server_stop, pollTick = (\<lambda>r. r)\<rparr>"

definition serving :: "model list \<Rightarrow> server" where
  "serving ms = \<lparr>sessions = ms, list_failure = None, stop_failures = []\<rparr>"

definition session :: "string \<Rightarrow> string \<Rightarrow> model" where
  "session i p = \<lparr>model_id = i, model_path = p, model_kernel = None\<rparr>"

definition conn :: "nat \<Rightarrow> string \<Rightarrow> connection" where
  "conn h i = \<lparr>handle = h, sc_id = i\<rparr>"

definition managing :: "model list \<Rightarrow> connection list \<Rightarrow> manager" where
  "managing ms scs =
     \<lparr>models = map (\<lambda>x. (model_id x, x)) ms, sessionConnections = scs,
      isDisposed = False, trace = []\<rparr>"

text \<open>Two sessions on a server that refuses to stop the first of them.\<close>

definition two_sessions :: "model list" where
  "two_sessions = [session ''S1'' ''/one'', session ''S2'' ''/two'']"

definition refusing_S1 :: server where
  "refusing_S1 = (serving two_sessions)\<lparr>stop_failures := [(''S1'', OtherError ''refused'')]\<rparr>"

section \<open>Properties\<close>




lemma emit_simps:
  "models (emit e m) = models m"
  "sessionConnections (emit e m) = sessionConnections m"
  "isDisposed (emit e m) = isDisposed m"
  "trace (emit e m) = trace m @ [e]"
  by (simp_all add: emit_def)

lemma sc_dispose_simps:
  "models (sc_dispose sc m) = models m"
  "sessionConnections (sc_dispose sc m) = removeAll sc (sessionConnections m)"
  "isDisposed (sc_dispose sc m) = isDisposed m"
  "trace (sc_dispose sc m) = trace m @ [ConnectionDispose (handle sc), RefreshRequested]"
  by (simp_all add: sc_dispose_def onDisposed_def emit_def)

lemma sc_update_simps:
  "models (sc_update sc x m) = models m"
  "sessionConnections (sc_update sc x m) = sessionConnections m"
  "isDisposed (sc_update sc x m) = isDisposed m"
  "trace (sc_update sc x m) = trace m @ [ConnectionUpdate (handle sc) x]"
  by (simp_all add: sc_update_def emit_def)

lemma fold_sc_dispose_models: "models (fold sc_dispose scs m) = models m"
  by (induction scs arbitrary: m) (simp_all add: sc_dispose_simps)

lemma fold_sc_dispose_isDisposed: "isDisposed (fold sc_dispose scs m) = isDisposed m"
  by (induction scs arbitrary: m) (simp_all add: sc_dispose_simps)

lemma fold_sc_dispose_connections:
  "sessionConnections (fold sc_dispose scs m) =
     filter (\<lambda>c. c \<notin> set scs) (sessionConnections m)"
  by (induction scs arbitrary: m)
     (auto simp add: sc_dispose_simps removeAll_filter_not_eq intro!: filter_cong)

lemma fold_sc_dispose_trace:
  "trace (fold sc_dispose scs m) =
     trace m @ concat (map (\<lambda>sc. [ConnectionDispose (handle sc), RefreshRequested]) scs)"
  by (induction scs arbitrary: m) (simp_all add: sc_dispose_simps)

lemma reconcile_simps:
  "models (reconcile sc m) = models m"
  "isDisposed (reconcile sc m) = isDisposed m"
  "sessionConnections (reconcile sc m) =
     (if map_of (models m) (sc_id sc) = None then removeAll sc (sessionConnections m)
      else sessionConnections m)"
  "trace (reconcile sc m) = trace m @
     (case map_of (models m) (sc_id sc) of
        Some x \<Rightarrow> [ConnectionUpdate (handle sc) x]
      | None \<Rightarrow> [ConnectionDispose (handle sc), RefreshRequested])"
  by (simp_all add: reconcile_def sc_dispose_simps sc_update_simps split: option.splits)

lemma fold_reconcile:
  "models (fold reconcile scs m) = models m"
  "isDisposed (fold reconcile scs m) = isDisposed m"
  "sessionConnections (fold reconcile scs m) =
     filter (\<lambda>c. c \<notin> set scs \<or> map_of (models m) (sc_id c) \<noteq> None) (sessionConnections m)"
  "trace (fold reconcile scs m) = trace m @
     concat (map (\<lambda>sc. case map_of (models m) (sc_id sc) of
                          Some x \<Rightarrow> [ConnectionUpdate (handle sc) x]
                        | None \<Rightarrow> [ConnectionDispose (handle sc), RefreshRequested]) scs)"
proof (induction scs arbitrary: m)
  case Nil
  {
    case 1 show ?case by simp
  next
    case 2 show ?case by simp
  next
    case 3 show ?case by simp
  next
    case 4 show ?case by simp
  }
next
  case (Cons sc scs)
  {
    case 1 show ?case by (simp add: Cons.IH reconcile_simps)
  next
    case 2 show ?case by (simp add: Cons.IH reconcile_simps)
  next
    case 3 show ?case
      by (auto simp add: Cons.IH reconcile_simps removeAll_filter_not_eq intro!: filter_cong)
  next
    case 4 show ?case by (simp add: Cons.IH reconcile_simps)
  }
qed

lemma fold_update_map_of:
  "map_of (fold (\<lambda>x al. AList.update (model_id x) x al) ms al) =
     map_of (rev (map (\<lambda>x. (model_id x, x)) ms) @ al)"
  by (induction ms arbitrary: al) (auto simp add: update_conv' fun_eq_iff map_add_def split: option.splits)

lemma new_Map_map_of:
  "map_of (new_Map ms) = map_of (rev (map (\<lambda>x. (model_id x, x)) ms))"
  by (simp add: new_Map_def fold_update_map_of)

lemma fold_update_distinct:
  "distinct (map fst al) \<Longrightarrow>
     distinct (map fst (fold (\<lambda>x al. AList.update (model_id x) x al) ms al))"
  by (induction ms arbitrary: al) (simp_all add: distinct_update)

lemma new_Map_distinct: "distinct (map fst (new_Map ms))"
  by (simp add: new_Map_def fold_update_distinct)

lemma fold_update_keys:
  "fst ` set (fold (\<lambda>x al. AList.update (model_id x) x al) ms al) =
     model_id ` set ms \<union> fst ` set al"
  by (induction ms arbitrary: al) (auto simp add: dom_update)

lemma new_Map_keys: "fst ` set (new_Map ms) = model_id ` set ms"
  by (simp add: new_Map_def fold_update_keys)

lemma map_of_rev_last:
  "map_of (rev (map (\<lambda>x. (model_id x, x)) ms)) i =
     (case filter (\<lambda>x. model_id x = i) ms of [] \<Rightarrow> None | y # ys \<Rightarrow> Some (last (y # ys)))"
  by (induction ms rule: rev_induct) (auto split: list.splits)

lemma new_Map_last:
  "filter (\<lambda>x. model_id x = i) ms \<noteq> [] \<Longrightarrow>
     map_of (new_Map ms) i = Some (last (filter (\<lambda>x. model_id x = i) ms))"
  by (simp add: new_Map_map_of map_of_rev_last split: list.splits)

lemma update_fresh:
  "k \<notin> fst ` set al \<Longrightarrow> AList.update k v al = al @ [(k, v)]"
  by (induction al) auto

lemma fold_update_fresh:
  "distinct (map model_id ms) \<Longrightarrow> model_id ` set ms \<inter> fst ` set al = {} \<Longrightarrow>
     fold (\<lambda>x al. AList.update (model_id x) x al) ms al = al @ map (\<lambda>x. (model_id x, x)) ms"
proof (induction ms arbitrary: al)
  case Nil
  then show ?case by simp
next
  case (Cons x ms)
  from Cons.prems have fresh: "model_id x \<notin> fst ` set al" by auto
  have "fold (\<lambda>x al. AList.update (model_id x) x al) ms (al @ [(model_id x, x)]) =
          (al @ [(model_id x, x)]) @ map (\<lambda>x. (model_id x, x)) ms"
    using Cons.prems by (intro Cons.IH) auto
  then show ?case by (simp add: update_fresh [OF fresh])
qed

lemma new_Map_distinct_ids:
  "distinct (map model_id ms) \<Longrightarrow> new_Map ms = map (\<lambda>x. (model_id x, x)) ms"
  by (simp add: new_Map_def fold_update_fresh)

lemma distinct_alist_filter:
  "distinct (map fst al) \<Longrightarrow> map_of al k = Some v \<Longrightarrow>
     filter (\<lambda>kv. fst kv = k) al = [(k, v)]"
proof (induction al)
  case Nil
  then show ?case by simp
next
  case (Cons p al)
  show ?case
  proof (cases "fst p = k")
    case True
    with Cons.prems have "k \<notin> fst ` set al" and "p = (k, v)" by (auto simp: prod_eq_iff)
    then have "filter (\<lambda>kv. fst kv = k) al = []" by (auto simp: filter_empty_conv)
    with True \<open>p = (k, v)\<close> show ?thesis by simp
  next
    case False
    with Cons show ?thesis by (cases p) auto
  qed
qed

lemmas example_defs =
  rest_def server_list_def server_stop_def serving_def session_def conn_def managing_def
  two_sessions_def refusing_S1_def

text \<open>
  C1. When the list call fails, with whatever error, \<^verbatim>\<open>requestRunning\<close> is
  rejected with that error and the map of models is as it was; nothing but the log
  changes. For a network error or a response with status 503 the connection-failure
  signal carrying the error has been emitted by then; for any other error nothing is
  emitted.
\<close>

theorem requestRunning_list_failure:
  assumes "listRunning env srv = (Inl err, srv')"
  shows "requestRunning env (srv, m) =
           (Inl err, srv',
            m\<lparr>trace := trace m @ ListRunning #
               (if instanceofNetworkError err \<or> response_status err = Some 503
                then [ConnectionFailure err] else [])\<rparr>)
         \<and> models (snd (snd (requestRunning env (srv, m)))) = models m"
  using assms by (simp add: emit_def)

theorem requestRunning_list_failure_witness:
  "listRunning rest ((serving [session ''B'' ''/b''])\<lparr>list_failure := Some (ResponseError 503 ''down'')\<rparr>)
     = (Inl (ResponseError 503 ''down''),
        (serving [session ''B'' ''/b''])\<lparr>list_failure := Some (ResponseError 503 ''down'')\<rparr>)
   \<and> requestRunning rest
        ((serving [session ''B'' ''/b''])\<lparr>list_failure := Some (ResponseError 503 ''down'')\<rparr>,
         managing [session ''A'' ''/a''] [conn 1 ''A''])
     = (Inl (ResponseError 503 ''down''),
        (serving [session ''B'' ''/b''])\<lparr>list_failure := Some (ResponseError 503 ''down'')\<rparr>,
        (managing [session ''A'' ''/a''] [conn 1 ''A''])
          \<lparr>trace := [ListRunning, ConnectionFailure (ResponseError 503 ''down'')]\<rparr>)
   \<and> running (snd (snd (requestRunning rest
        ((serving [session ''B'' ''/b''])\<lparr>list_failure := Some (ResponseError 503 ''down'')\<rparr>,
         managing [session ''A'' ''/a''] [conn 1 ''A''])))) = [session ''A'' ''/a'']"
  using requestRunning_list_failure
    [of rest "(serving [session ''B'' ''/b''])\<lparr>list_failure := Some (ResponseError 503 ''down'')\<rparr>"
        "ResponseError 503 ''down''"
        "(serving [session ''B'' ''/b''])\<lparr>list_failure := Some (ResponseError 503 ''down'')\<rparr>"
        "managing [session ''A'' ''/a''] [conn 1 ''A'']"]
  by (simp add: example_defs running_def)

lemma every_deepEqual_True:
  "every fetched (\<lambda>x. deepEqual (map_of al (model_id x)) x) = Inr True \<longleftrightarrow>
     list_all (\<lambda>x. map_of al (model_id x) = Some x) fetched"
  by (induction fetched) (auto simp add: deepEqual_def split: option.splits)

lemma every_deepEqual_error:
  "every fetched (\<lambda>x. deepEqual (map_of al (model_id x)) x) = Inl err \<Longrightarrow> err = TypeError"
  by (induction fetched) (auto simp add: deepEqual_def split: option.splits if_splits)

lemma identical_True:
  "identical al fetched = Inr True \<longleftrightarrow>
     length al = length fetched \<and> (\<forall>x\<in>set fetched. map_of al (model_id x) = Some x)"
  by (simp add: identical_def every_deepEqual_True list_all_iff)

lemma identical_error: "identical al fetched = Inl err \<Longrightarrow> err = TypeError"
  by (auto simp add: identical_def dest: every_deepEqual_error split: if_splits)

lemma requestRunning_same:
  assumes "listRunning env srv = (Inr fetched, srv')"
      and "\<not> isDisposed m"
      and "identical (models m) fetched = Inr True"
  shows "requestRunning env (srv, m) = (Inr (), srv', m\<lparr>trace := trace m @ [ListRunning]\<rparr>)"
  using assms by (simp add: emit_def)

lemma requestRunning_thrown:
  assumes "listRunning env srv = (Inr fetched, srv')"
      and "\<not> isDisposed m"
      and "identical (models m) fetched = Inl err"
  shows "requestRunning env (srv, m) = (Inl err, srv', m\<lparr>trace := trace m @ [ListRunning]\<rparr>)"
  using assms by (simp add: emit_def)

lemma requestRunning_changed:
  assumes "listRunning env srv = (Inr fetched, srv')"
      and "\<not> isDisposed m"
      and "identical (models m) fetched = Inr False"
  shows "requestRunning env (srv, m) =
     (Inr (), srv',
      m\<lparr>models := new_Map fetched,
        sessionConnections :=
          filter (\<lambda>sc. map_of (new_Map fetched) (sc_id sc) \<noteq> None) (sessionConnections m),
        trace := trace m @ ListRunning #
          concat (map (\<lambda>sc. case map_of (new_Map fetched) (sc_id sc) of
                               Some x \<Rightarrow> [ConnectionUpdate (handle sc) x]
                             | None \<Rightarrow> [ConnectionDispose (handle sc), RefreshRequested])
                      (sessionConnections m))
          @ [RunningChanged fetched]\<rparr>)"
proof -
  let ?m = "emit ListRunning m"
  let ?m1 = "?m\<lparr>models := new_Map fetched\<rparr>"
  let ?m2 = "fold reconcile (sessionConnections ?m1) ?m1"
  have run: "requestRunning env (srv, m) = (Inr (), srv', emit (RunningChanged fetched) ?m2)"
    using assms by (simp add: emit_simps Let_def)
  have "emit (RunningChanged fetched) ?m2 =
      m\<lparr>models := new_Map fetched,
        sessionConnections :=
          filter (\<lambda>sc. map_of (new_Map fetched) (sc_id sc) \<noteq> None) (sessionConnections m),
        trace := trace m @ ListRunning #
          concat (map (\<lambda>sc. case map_of (new_Map fetched) (sc_id sc) of
                               Some x \<Rightarrow> [ConnectionUpdate (handle sc) x]
                             | None \<Rightarrow> [ConnectionDispose (handle sc), RefreshRequested])
                      (sessionConnections m))
          @ [RunningChanged fetched]\<rparr>"
    by (rule manager.equality) (auto simp add: emit_simps fold_reconcile intro!: filter_cong)
  with run show ?thesis by simp
qed

lemma updates_of_append: "updates_of h (es @ fs) = updates_of h es @ updates_of h fs"
  by (induction h es rule: updates_of.induct) simp_all

lemma updates_of_other:
  "h \<notin> handle ` set scs \<Longrightarrow>
     updates_of h (concat (map (\<lambda>sc. case map_of al (sc_id sc) of
                               Some x \<Rightarrow> [ConnectionUpdate (handle sc) x]
                             | None \<Rightarrow> [ConnectionDispose (handle sc), RefreshRequested]) scs)) = []"
  by (induction scs) (auto simp add: updates_of_append split: option.splits)

lemma updates_of_once:
  "distinct (map handle scs) \<Longrightarrow> sc \<in> set scs \<Longrightarrow> map_of al (sc_id sc) = Some x \<Longrightarrow>
     updates_of (handle sc) (concat (map (\<lambda>sc. case map_of al (sc_id sc) of
                               Some x \<Rightarrow> [ConnectionUpdate (handle sc) x]
                             | None \<Rightarrow> [ConnectionDispose (handle sc), RefreshRequested]) scs)) = [x]"
proof (induction scs)
  case Nil
  then show ?case by simp
next
  case (Cons c scs)
  show ?case
  proof (cases "c = sc")
    case True
    with Cons.prems have "handle sc \<notin> handle ` set scs" by auto
    from updates_of_other [OF this, of al] True Cons.prems(3)
    show ?thesis by (simp add: updates_of_append)
  next
    case False
    with Cons.prems have "sc \<in> set scs" and "handle c \<noteq> handle sc" and "distinct (map handle scs)"
      by auto
    with Cons.IH Cons.prems(3) show ?thesis
      by (auto simp add: updates_of_append split: option.splits)
  qed
qed

text \<open>
  C3. After a successful fetch on a manager that is not disposed, a list that is not
  identical to the map should replace the map, have every registered connection
  updated or disposed, and be emitted once with running-changed. The code does so
  whenever its test returns false (\<open>requestRunning_changed\<close>). It does not where the
  test throws: with the map \<open>{A}\<close>, a connection bound to \<open>A\<close> and the fetched list
  \<open>[B]\<close>, which is as long as the map, the map has no entry for \<open>B\<close> and
  \<^verbatim>\<open>deepEqual\<close> is called on \<^verbatim>\<open>undefined\<close>. \<^verbatim>\<open>requestRunning\<close> is rejected
  with the \<^verbatim>\<open>TypeError\<close>; the map still holds \<open>A\<close>, the connection is neither
  updated nor disposed and nothing is emitted.
\<close>

theorem requestRunning_unknown_id_rejected:
  "listRunning rest (serving [session ''B'' ''/b''])
     = (Inr [session ''B'' ''/b''], serving [session ''B'' ''/b''])
   \<and> \<not> isDisposed (managing [session ''A'' ''/a''] [conn 1 ''A''])
   \<and> length (models (managing [session ''A'' ''/a''] [conn 1 ''A''])) = length [session ''B'' ''/b'']
   \<and> map_of (models (managing [session ''A'' ''/a''] [conn 1 ''A''])) (model_id (session ''B'' ''/b''))
       \<noteq> Some (session ''B'' ''/b'')
   \<and> requestRunning rest
        (serving [session ''B'' ''/b''], managing [session ''A'' ''/a''] [conn 1 ''A''])
     = (Inl TypeError, serving [session ''B'' ''/b''],
        (managing [session ''A'' ''/a''] [conn 1 ''A''])\<lparr>trace := [ListRunning]\<rparr>)
   \<and> running (snd (snd (requestRunning rest
        (serving [session ''B'' ''/b''], managing [session ''A'' ''/a''] [conn 1 ''A'']))))
     = [session ''A'' ''/a'']"
  by (simp add: example_defs identical_def deepEqual_def emit_def running_def)

text \<open>
  C4. When a fetched list in which two or more models share the identifier \<open>i\<close>
  reaches the replacement of the map (the fetch has succeeded, the manager is not
  disposed and the test for an identical list has returned false), the new map has
  exactly one entry for \<open>i\<close>, the last of these models in the order of the fetch, and
  every registered connection bound to \<open>i\<close> gets exactly one more call of
  \<^verbatim>\<open>update\<close>, with that model. The registry is a set of objects: no handle occurs
  twice in it.
\<close>

theorem requestRunning_duplicate_ids:
  assumes "listRunning env srv = (Inr fetched, srv')"
      and "\<not> isDisposed m"
      and "identical (models m) fetched = Inr False"
      and "2 \<le> length (filter (\<lambda>x. model_id x = i) fetched)"
      and "distinct (map handle (sessionConnections m))"
  shows "filter (\<lambda>kv. fst kv = i) (models (snd (snd (requestRunning env (srv, m))))) =
           [(i, last (filter (\<lambda>x. model_id x = i) fetched))]
     \<and> (\<forall>sc\<in>set (sessionConnections m). sc_id sc = i \<longrightarrow>
           updates_of (handle sc) (trace (snd (snd (requestRunning env (srv, m))))) =
           updates_of (handle sc) (trace m) @ [last (filter (\<lambda>x. model_id x = i) fetched)])"
proof -
  from assms(4) have ne: "filter (\<lambda>x. model_id x = i) fetched \<noteq> []" by auto
  have look: "map_of (new_Map fetched) i = Some (last (filter (\<lambda>x. model_id x = i) fetched))"
    by (rule new_Map_last [OF ne])
  note run = requestRunning_changed [OF assms(1,2,3)]
  have one: "filter (\<lambda>kv. fst kv = i) (new_Map fetched) =
               [(i, last (filter (\<lambda>x. model_id x = i) fetched))]"
    by (rule distinct_alist_filter [OF new_Map_distinct look])
  have calls: "updates_of (handle sc)
          (concat (map (\<lambda>sc. case map_of (new_Map fetched) (sc_id sc) of
                               Some x \<Rightarrow> [ConnectionUpdate (handle sc) x]
                             | None \<Rightarrow> [ConnectionDispose (handle sc), RefreshRequested])
                      (sessionConnections m))) = [last (filter (\<lambda>x. model_id x = i) fetched)]"
    if "sc \<in> set (sessionConnections m)" and "sc_id sc = i" for sc
    using updates_of_once [OF assms(5) that(1), of "new_Map fetched"] look that(2) by simp
  show ?thesis
    by (simp add: run one updates_of_append calls del: requestRunning.simps)
qed

theorem requestRunning_duplicate_ids_witness:
  "listRunning rest (serving [session ''A'' ''/a1'', session ''A'' ''/a2''])
     = (Inr [session ''A'' ''/a1'', session ''A'' ''/a2''],
        serving [session ''A'' ''/a1'', session ''A'' ''/a2''])
   \<and> \<not> isDisposed (managing [session ''A'' ''/a'', session ''B'' ''/b''] [conn 1 ''A'', conn 2 ''B''])
   \<and> identical (models (managing [session ''A'' ''/a'', session ''B'' ''/b''] [conn 1 ''A'', conn 2 ''B'']))
         [session ''A'' ''/a1'', session ''A'' ''/a2''] = Inr False
   \<and> 2 \<le> length (filter (\<lambda>x. model_id x = ''A'') [session ''A'' ''/a1'', session ''A'' ''/a2''])
   \<and> distinct (map handle (sessionConnections
         (managing [session ''A'' ''/a'', session ''B'' ''/b''] [conn 1 ''A'', conn 2 ''B''])))
   \<and> requestRunning rest
        (serving [session ''A'' ''/a1'', session ''A'' ''/a2''],
         managing [session ''A'' ''/a'', session ''B'' ''/b''] [conn 1 ''A'', conn 2 ''B''])
     = (Inr (), serving [session ''A'' ''/a1'', session ''A'' ''/a2''],
        \<lparr>models = [(''A'', session ''A'' ''/a2'')],
         sessionConnections = [conn 1 ''A''],
         isDisposed = False,
         trace = [ListRunning, ConnectionUpdate 1 (session ''A'' ''/a2''),
                  ConnectionDispose 2, RefreshRequested,
                  RunningChanged [session ''A'' ''/a1'', session ''A'' ''/a2'']]\<rparr>)
   \<and> updates_of 1 (trace (snd (snd (requestRunning rest
        (serving [session ''A'' ''/a1'', session ''A'' ''/a2''],
         managing [session ''A'' ''/a'', session ''B'' ''/b''] [conn 1 ''A'', conn 2 ''B'']))))) =
       [session ''A'' ''/a2'']"
  using requestRunning_duplicate_ids
    [of rest "serving [session ''A'' ''/a1'', session ''A'' ''/a2'']"
        "[session ''A'' ''/a1'', session ''A'' ''/a2'']"
        "serving [session ''A'' ''/a1'', session ''A'' ''/a2'']"
        "managing [session ''A'' ''/a'', session ''B'' ''/b''] [conn 1 ''A'', conn 2 ''B'']" "''A''"]
  by (simp add: example_defs identical_def deepEqual_def new_Map_def emit_def reconcile_def
        sc_update_def sc_dispose_def onDisposed_def)

text \<open>
  C9. With the map \<open>{A \<mapsto> a, B \<mapsto> b}\<close> and the fetched list \<open>[a, a]\<close>, the test for
  an unchanged list succeeds although the fetched identifiers are not the keys of the
  map: the map, still holding \<open>B\<close>, is kept, no connection is updated or disposed and
  no running-changed signal is emitted.
\<close>

theorem requestRunning_stale_on_duplicates:
  assumes "model_id a \<noteq> model_id b"
      and "models m = [(model_id a, a), (model_id b, b)]"
      and "\<not> isDisposed m"
      and "listRunning env srv = (Inr [a, a], srv')"
  shows "requestRunning env (srv, m) = (Inr (), srv', m\<lparr>trace := trace m @ [ListRunning]\<rparr>)
     \<and> model_id ` set [a, a] \<noteq> fst ` set (models m)
     \<and> running (snd (snd (requestRunning env (srv, m)))) = [a, b]"
proof -
  have "requestRunning env (srv, m) = (Inr (), srv', m\<lparr>trace := trace m @ [ListRunning]\<rparr>)"
  proof (rule requestRunning_same)
    show "listRunning env srv = (Inr [a, a], srv')" by (rule assms(4))
    show "\<not> isDisposed m" by (rule assms(3))
    show "identical (models m) [a, a] = Inr True"
      using assms(1) by (simp add: identical_True assms(2))
  qed
  moreover have "model_id ` set [a, a] \<noteq> fst ` set (models m)"
    using assms(1,2) by auto
  ultimately show ?thesis
    using assms(2) by (simp add: running_def del: requestRunning.simps)
qed

theorem requestRunning_stale_on_duplicates_witness:
  "model_id (session ''A'' ''/a'') \<noteq> model_id (session ''B'' ''/b'')
   \<and> models (managing [session ''A'' ''/a'', session ''B'' ''/b''] [conn 1 ''A'', conn 2 ''B''])
       = [(model_id (session ''A'' ''/a''), session ''A'' ''/a''),
          (model_id (session ''B'' ''/b''), session ''B'' ''/b'')]
   \<and> \<not> isDisposed (managing [session ''A'' ''/a'', session ''B'' ''/b''] [conn 1 ''A'', conn 2 ''B''])
   \<and> listRunning rest (serving [session ''A'' ''/a'', session ''A'' ''/a''])
       = (Inr [session ''A'' ''/a'', session ''A'' ''/a''],
          serving [session ''A'' ''/a'', session ''A'' ''/a''])
   \<and> requestRunning rest
        (serving [session ''A'' ''/a'', session ''A'' ''/a''],
         managing [session ''A'' ''/a'', session ''B'' ''/b''] [conn 1 ''A'', conn 2 ''B''])
       = (Inr (), serving [session ''A'' ''/a'', session ''A'' ''/a''],
          (managing [session ''A'' ''/a'', session ''B'' ''/b''] [conn 1 ''A'', conn 2 ''B''])
            \<lparr>trace := [ListRunning]\<rparr>)
   \<and> running (snd (snd (requestRunning rest
        (serving [session ''A'' ''/a'', session ''A'' ''/a''],
         managing [session ''A'' ''/a'', session ''B'' ''/b''] [conn 1 ''A'', conn 2 ''B'']))))
       = [session ''A'' ''/a'', session ''B'' ''/b'']"
  using requestRunning_stale_on_duplicates
    [of "session ''A'' ''/a''" "session ''B'' ''/b''"
        "managing [session ''A'' ''/a'', session ''B'' ''/b''] [conn 1 ''A'', conn 2 ''B'']"
        rest "serving [session ''A'' ''/a'', session ''A'' ''/a'']"
        "serving [session ''A'' ''/a'', session ''A'' ''/a'']"]
  by (simp add: example_defs identical_def deepEqual_def running_def emit_def)

text \<open>
  C10. \<^verbatim>\<open>dispose\<close> clears the map of models, calls \<^verbatim>\<open>dispose\<close> on every
  registered connection, in the order of the registry, and disposes the Poller. It
  emits no running-changed signal, whatever \<^verbatim>\<open>running()\<close> held before; afterwards
  \<^verbatim>\<open>running()\<close> is empty.
\<close>

theorem dispose_silent:
  "models (dispose m) = [] \<and> running (dispose m) = []
   \<and> sessionConnections (dispose m) = [] \<and> isDisposed (dispose m)
   \<and> trace (dispose m) =
         trace m @ concat (map (\<lambda>sc. [ConnectionDispose (handle sc), RefreshRequested])
                              (sessionConnections m)) @ [PollDispose]
   \<and> (\<forall>sc\<in>set (sessionConnections m).
         ConnectionDispose (handle sc) \<in> set (drop (length (trace m)) (trace (dispose m))))
   \<and> PollDispose \<in> set (drop (length (trace m)) (trace (dispose m)))
   \<and> (\<forall>ms. RunningChanged ms \<notin> set (drop (length (trace m)) (trace (dispose m))))"
proof -
  have tr: "trace (dispose m) =
         trace m @ concat (map (\<lambda>sc. [ConnectionDispose (handle sc), RefreshRequested])
                              (sessionConnections m)) @ [PollDispose]"
    by (simp add: dispose_def Let_def emit_simps fold_sc_dispose_trace)
  have "models (dispose m) = []"
    by (simp add: dispose_def Let_def emit_simps fold_sc_dispose_models)
  moreover have "sessionConnections (dispose m) = []"
    by (simp add: dispose_def Let_def emit_simps fold_sc_dispose_connections)
  moreover have "isDisposed (dispose m)"
    by (simp add: dispose_def Let_def)
  ultimately show ?thesis
    by (auto simp add: tr running_def)
qed

theorem dispose_silent_witness:
  "running (managing [session ''A'' ''/a''] [conn 1 ''A'', conn 2 ''B'']) = [session ''A'' ''/a'']
   \<and> running (dispose (managing [session ''A'' ''/a''] [conn 1 ''A'', conn 2 ''B''])) = []
   \<and> trace (dispose (managing [session ''A'' ''/a''] [conn 1 ''A'', conn 2 ''B''])) =
       [ConnectionDispose 1, RefreshRequested, ConnectionDispose 2, RefreshRequested, PollDispose]"
  using dispose_silent [of "managing [session ''A'' ''/a''] [conn 1 ''A'', conn 2 ''B'']"]
  by (simp add: example_defs running_def)

lemma requestRunning_settles:
  assumes "listRunning env srv = (Inr fetched, srv')"
      and "\<not> isDisposed m"
      and "distinct (map model_id fetched)"
  shows "\<exists>m1. requestRunning env (srv, m) =
           (case identical (models m) fetched of Inl err \<Rightarrow> Inl err | Inr b \<Rightarrow> Inr (), srv', m1) \<and>
           \<not> isDisposed m1 \<and>
           identical (models m1) fetched =
             (case identical (models m) fetched of Inl err \<Rightarrow> Inl err | Inr b \<Rightarrow> Inr True)"
proof (cases "identical (models m) fetched")
  case (Inl err)
  then show ?thesis
    using requestRunning_thrown [OF assms(1,2) Inl] assms(2) by (simp del: requestRunning.simps)
next
  case (Inr b)
  show ?thesis
  proof (cases b)
    case True
    with Inr have same: "identical (models m) fetched = Inr True" by simp
    then show ?thesis
      using requestRunning_same [OF assms(1,2) same] assms(2) by (simp del: requestRunning.simps)
  next
    case False
    with Inr have changed: "identical (models m) fetched = Inr False" by simp
    have "map_of (map (\<lambda>x. (model_id x, x)) fetched) (model_id x) = Some x"
      if "x \<in> set fetched" for x
      using assms(3) that by (intro map_of_is_SomeI) (auto simp add: comp_def)
    then have "identical (new_Map fetched) fetched = Inr True"
      by (simp add: new_Map_distinct_ids [OF assms(3)] identical_True)
    then show ?thesis
      using requestRunning_changed [OF assms(1,2) changed] assms(2) changed
      by (simp del: requestRunning.simps)
  qed
qed

lemma requestRunning_again:
  assumes "listRunning env srv = (Inr fetched, srv')"
      and "\<not> isDisposed m"
  shows "identical (models m) fetched = Inr True \<or> identical (models m) fetched = Inl TypeError \<Longrightarrow>
     requestRunning env (srv, m) =
       (case identical (models m) fetched of Inl err \<Rightarrow> Inl err | Inr b \<Rightarrow> Inr (),
        srv', m\<lparr>trace := trace m @ [ListRunning]\<rparr>)"
  using requestRunning_same [OF assms] requestRunning_thrown [OF assms]
  by (auto simp del: requestRunning.simps)

text \<open>
  C2, as amended. On a manager that is not disposed, a successful fetch of a list that
  is as long as the map and whose every model equals the map's entry for its identifier
  changes nothing: the map and the registry stay, and nothing is logged but the list
  call itself, so no connection is updated or disposed and no signal is emitted. As a
  consequence, when the server's list stays the same and its identifiers are pairwise
  distinct, the second of two \<^verbatim>\<open>refreshRunning\<close> in a row logs only its list call
  and ends as the first one did: fulfilled, or rejected with the \<^verbatim>\<open>TypeError\<close> of
  the test where the first one was.
\<close>

theorem requestRunning_unchanged:
  assumes "\<not> isDisposed m"
      and "listRunning env srv = (Inr fetched, srv')"
  shows "(length fetched = length (models m) \<and>
          (\<forall>x\<in>set fetched. map_of (models m) (model_id x) = Some x) \<longrightarrow>
            requestRunning env (srv, m) = (Inr (), srv', m\<lparr>trace := trace m @ [ListRunning]\<rparr>))
     \<and> (distinct (map model_id fetched) \<and> listRunning env srv' = (Inr fetched, srv'') \<longrightarrow>
          (\<exists>r m1. r = (case identical (models m) fetched of Inl err \<Rightarrow> Inl TypeError | Inr b \<Rightarrow> Inr ()) \<and>
                refreshRunning env (srv, m) = (pollTick env r, srv', m1) \<and>
                refreshRunning env (srv', m1) =
                  (pollTick env r, srv'', m1\<lparr>trace := trace m1 @ [ListRunning]\<rparr>)))"
proof (intro conjI impI)
  assume "length fetched = length (models m) \<and>
          (\<forall>x\<in>set fetched. map_of (models m) (model_id x) = Some x)"
  then have "identical (models m) fetched = Inr True"
    by (simp add: identical_True)
  from requestRunning_same [OF assms(2,1) this]
  show "requestRunning env (srv, m) = (Inr (), srv', m\<lparr>trace := trace m @ [ListRunning]\<rparr>)" .
next
  let ?r = "case identical (models m) fetched of Inl err \<Rightarrow> Inl err | Inr b \<Rightarrow> Inr ()"
  assume again: "distinct (map model_id fetched) \<and> listRunning env srv' = (Inr fetched, srv'')"
  then obtain m1 where first: "requestRunning env (srv, m) = (?r, srv', m1)"
    and m1: "\<not> isDisposed m1"
    and test: "identical (models m1) fetched =
             (case identical (models m) fetched of Inl err \<Rightarrow> Inl err | Inr b \<Rightarrow> Inr True)"
    using requestRunning_settles [OF assms(2,1)] by blast
  have r: "?r = (case identical (models m) fetched of Inl err \<Rightarrow> Inl TypeError | Inr b \<Rightarrow> Inr ())"
    by (auto split: sum.splits dest: identical_error)
  from again have list: "listRunning env srv' = (Inr fetched, srv'')" by simp
  have "identical (models m1) fetched = Inr True \<or> identical (models m1) fetched = Inl TypeError"
    using test by (auto split: sum.splits dest: identical_error)
  from requestRunning_again [OF list m1 this] test
  have second: "requestRunning env (srv', m1) = (?r, srv'', m1\<lparr>trace := trace m1 @ [ListRunning]\<rparr>)"
    by (auto split: sum.splits simp del: requestRunning.simps)
  from first second r
  show "\<exists>r m1. r = (case identical (models m) fetched of Inl err \<Rightarrow> Inl TypeError | Inr b \<Rightarrow> Inr ()) \<and>
                refreshRunning env (srv, m) = (pollTick env r, srv', m1) \<and>
                refreshRunning env (srv', m1) =
                  (pollTick env r, srv'', m1\<lparr>trace := trace m1 @ [ListRunning]\<rparr>)"
    by (simp add: refreshRunning_def del: requestRunning.simps)
qed

theorem requestRunning_unchanged_witness:
  "\<not> isDisposed (managing [session ''A'' ''/a''] [conn 1 ''A''])
   \<and> listRunning rest (serving [session ''A'' ''/a''])
       = (Inr [session ''A'' ''/a''], serving [session ''A'' ''/a''])
   \<and> length [session ''A'' ''/a''] = length (models (managing [session ''A'' ''/a''] [conn 1 ''A'']))
   \<and> map_of (models (managing [session ''A'' ''/a''] [conn 1 ''A''])) (model_id (session ''A'' ''/a''))
       = Some (session ''A'' ''/a'')
   \<and> distinct (map model_id [session ''A'' ''/a''])
   \<and> requestRunning rest (serving [session ''A'' ''/a''], managing [session ''A'' ''/a''] [conn 1 ''A''])
       = (Inr (), serving [session ''A'' ''/a''],
          (managing [session ''A'' ''/a''] [conn 1 ''A''])\<lparr>trace := [ListRunning]\<rparr>)
   \<and> trace (snd (snd (refreshRunning rest
          (serving [session ''A'' ''/a''], managing [] [conn 1 ''A'']))))
       = [ListRunning, ConnectionUpdate 1 (session ''A'' ''/a''),
          RunningChanged [session ''A'' ''/a'']]
   \<and> trace (snd (snd (refreshRunning rest (snd (refreshRunning rest
          (serving [session ''A'' ''/a''], managing [] [conn 1 ''A'']))))))
       = [ListRunning, ConnectionUpdate 1 (session ''A'' ''/a''),
          RunningChanged [session ''A'' ''/a''], ListRunning]
   \<and> refreshRunning rest (snd (refreshRunning rest
          (serving [session ''A'' ''/a''], managing [session ''B'' ''/b''] [])))
       = (Inl TypeError, serving [session ''A'' ''/a''],
          (managing [session ''B'' ''/b''] [])\<lparr>trace := [ListRunning, ListRunning]\<rparr>)"
  using requestRunning_unchanged
    [of "managing [session ''A'' ''/a''] [conn 1 ''A'']" rest "serving [session ''A'' ''/a'']"
        "[session ''A'' ''/a'']" "serving [session ''A'' ''/a'']" "serving [session ''A'' ''/a'']"]
    requestRunning_unchanged
    [of "managing [session ''B'' ''/b''] []" rest "serving [session ''A'' ''/a'']"
        "[session ''A'' ''/a'']" "serving [session ''A'' ''/a'']" "serving [session ''A'' ''/a'']"]
  by (simp add: example_defs identical_def deepEqual_def refreshRunning_def new_Map_def emit_def
        reconcile_def sc_update_def)

text \<open>
  Without distinct identifiers the consequence fails: the server lists the same model
  twice, both times; the second \<^verbatim>\<open>refreshRunning\<close> finds a map of size one
  against a list of length two and emits running-changed again.
\<close>

theorem refreshRunning_twice_duplicates_counterexample:
  "listRunning rest (serving [session ''A'' ''/a'', session ''A'' ''/a''])
     = (Inr [session ''A'' ''/a'', session ''A'' ''/a''],
        serving [session ''A'' ''/a'', session ''A'' ''/a''])
   \<and> trace (snd (snd (refreshRunning rest (snd (refreshRunning rest
          (serving [session ''A'' ''/a'', session ''A'' ''/a''], managing [] []))))))
       = [ListRunning, RunningChanged [session ''A'' ''/a'', session ''A'' ''/a''],
          ListRunning, RunningChanged [session ''A'' ''/a'', session ''A'' ''/a'']]"
  by (simp add: example_defs identical_def deepEqual_def refreshRunning_def new_Map_def emit_def)

lemma requestRunning_failed:
  assumes "listRunning env srv = (Inl err, srv')"
  shows "requestRunning env (srv, m) =
           (Inl err, srv',
            m\<lparr>trace := trace m @ ListRunning #
               (if instanceofNetworkError err \<or> response_status err = Some 503
                then [ConnectionFailure err] else [])\<rparr>)"
  using assms by (simp add: emit_def)

lemma requestRunning_disposed:
  assumes "listRunning env srv = (Inr fetched, srv')" and "isDisposed m"
  shows "requestRunning env (srv, m) = (Inr (), srv', m\<lparr>trace := trace m @ [ListRunning]\<rparr>)"
  using assms by (simp add: emit_def)

lemma requestRunning_trace:
  "\<exists>es. trace (snd (snd (requestRunning env (srv, m)))) = trace m @ ListRunning # es \<and>
        ListRunning \<notin> set es"
proof (cases "listRunning env srv")
  case (Pair r srv')
  show ?thesis
  proof (cases r)
    case (Inl err)
    with Pair show ?thesis
      by (simp add: requestRunning_failed del: requestRunning.simps)
  next
    case (Inr fetched)
    with Pair have fetch: "listRunning env srv = (Inr fetched, srv')" by simp
    show ?thesis
    proof (cases "isDisposed m")
      case True
      then show ?thesis
        by (simp add: requestRunning_disposed [OF fetch] del: requestRunning.simps)
    next
      case False
      show ?thesis
      proof (cases "identical (models m) fetched")
        case thrown: (Inl err)
        show ?thesis
          by (simp add: requestRunning_thrown [OF fetch False thrown] del: requestRunning.simps)
      next
        case (Inr b)
        show ?thesis
        proof (cases b)
          case True
          with Inr have same: "identical (models m) fetched = Inr True" by simp
          show ?thesis
            by (simp add: requestRunning_same [OF fetch False same] del: requestRunning.simps)
        next
          case changed: False
          with Inr have changed: "identical (models m) fetched = Inr False" by simp
          show ?thesis
            by (auto simp add: requestRunning_changed [OF fetch False changed]
                  split: option.splits simp del: requestRunning.simps)
        qed
      qed
    qed
  qed
qed

lemma refreshRunning_trace:
  "\<exists>es. trace (snd (snd (refreshRunning env (srv, m)))) = trace m @ ListRunning # es \<and>
        ListRunning \<notin> set es"
  using requestRunning_trace [of env srv m]
  by (simp add: refreshRunning_def split_beta del: requestRunning.simps)

lemma shutdownEach_calls:
  "shutdownEach env is (srv, m) = (rs, srv2, m2) \<Longrightarrow>
     m2 = m\<lparr>trace := trace m @ map ShutdownSession is\<rparr> \<and> length rs = length is"
proof (induction "is" arbitrary: srv m rs)
  case Nil
  then show ?case by simp
next
  case (Cons i "is")
  obtain r srv' where stop: "shutdownSession env i srv = (r, srv')"
    by (cases "shutdownSession env i srv")
  obtain rs' s' where rest: "shutdownEach env is (srv', emit (ShutdownSession i) m) = (rs', s')"
    by (cases "shutdownEach env is (srv', emit (ShutdownSession i) m)")
  from Cons.prems stop rest have "rs = r # rs'" and "s' = (srv2, m2)" by simp_all
  with Cons.IH [of srv' "emit (ShutdownSession i) m" rs'] rest
  show ?case by (simp add: emit_def)
qed

lemma Promise_all_rejected:
  "Inl err0 \<in> set rs \<Longrightarrow> \<exists>err. Inl err \<in> set rs \<and> Promise_all rs = Inl err"
  by (induction rs rule: Promise_all.induct) auto

text \<open>
  C5, as amended. When the first refresh has settled and at least one of the stop
  calls fails, \<^verbatim>\<open>shutdownAll\<close> has issued one stop call for every identifier in
  the map, in the map's order, and is rejected with the error of a failed stop call;
  it does not refresh a second time, so \<^verbatim>\<open>running()\<close> is still what the first
  refresh left.
\<close>

theorem shutdownAll_partial_failure:
  assumes "refreshRunning env s = (Inr (), srv1, m1)"
      and "shutdownEach env (map fst (models m1)) (srv1, m1) = (rs, srv2, m2)"
      and "Inl err0 \<in> set rs"
  shows "m2 = m1\<lparr>trace := trace m1 @ map ShutdownSession (map fst (models m1))\<rparr>
     \<and> length rs = length (models m1)
     \<and> (\<exists>err. Inl err \<in> set rs \<and> shutdownAll env s = (Inl err, srv2, m2))
     \<and> running (snd (snd (shutdownAll env s))) = running m1"
proof -
  from shutdownEach_calls [OF assms(2)]
  have calls: "m2 = m1\<lparr>trace := trace m1 @ map ShutdownSession (map fst (models m1))\<rparr>"
    and len: "length rs = length (models m1)" by simp_all
  from Promise_all_rejected [OF assms(3)]
  obtain err where err: "Inl err \<in> set rs" "Promise_all rs = Inl err" by blast
  then have all: "shutdownAll env s = (Inl err, srv2, m2)"
    using assms(1,2) by simp
  have "running m2 = running m1"
    by (simp add: calls running_def)
  with all err(1) calls len show ?thesis by auto
qed

theorem shutdownAll_partial_failure_witness:
  "refreshRunning rest (refusing_S1, managing [] []) =
     (Inr (), refusing_S1,
      (managing two_sessions [])\<lparr>trace := [ListRunning, RunningChanged two_sessions]\<rparr>)
   \<and> shutdownEach rest (map fst (models (managing two_sessions [])))
        (refusing_S1, (managing two_sessions [])\<lparr>trace := [ListRunning, RunningChanged two_sessions]\<rparr>)
       = ([Inl (OtherError ''refused''), Inr ()],
          refusing_S1\<lparr>sessions := [session ''S1'' ''/one'']\<rparr>,
          (managing two_sessions [])
            \<lparr>trace := [ListRunning, RunningChanged two_sessions,
                       ShutdownSession ''S1'', ShutdownSession ''S2'']\<rparr>)
   \<and> shutdownAll rest (refusing_S1, managing [] []) =
       (Inl (OtherError ''refused''),
        refusing_S1\<lparr>sessions := [session ''S1'' ''/one'']\<rparr>,
        (managing two_sessions [])
          \<lparr>trace := [ListRunning, RunningChanged two_sessions,
                     ShutdownSession ''S1'', ShutdownSession ''S2'']\<rparr>)"
  using shutdownAll_partial_failure
    [of rest "(refusing_S1, managing [] [])" refusing_S1
        "(managing two_sessions [])\<lparr>trace := [ListRunning, RunningChanged two_sessions]\<rparr>"
        "[Inl (OtherError ''refused''), Inr ()]"
        "refusing_S1\<lparr>sessions := [session ''S1'' ''/one'']\<rparr>"
        "(managing two_sessions [])
            \<lparr>trace := [ListRunning, RunningChanged two_sessions,
                       ShutdownSession ''S1'', ShutdownSession ''S2'']\<rparr>"
        "OtherError ''refused''"]
  by (simp add: example_defs identical_def deepEqual_def refreshRunning_def new_Map_def emit_def)

text \<open>
  The claim as it stands fails: stopping \<open>S1\<close> is refused and stopping \<open>S2\<close> succeeds
  and removes \<open>S2\<close> from the server, yet after the rejected \<^verbatim>\<open>shutdownAll\<close> the
  snapshot of \<^verbatim>\<open>running()\<close> still lists \<open>S2\<close>.
\<close>

theorem shutdownAll_keeps_stopped_counterexample:
  "fst (shutdownAll rest (refusing_S1, managing [] [])) = Inl (OtherError ''refused'')
   \<and> sessions (fst (snd (shutdownAll rest (refusing_S1, managing [] [])))) = [session ''S1'' ''/one'']
   \<and> running (snd (snd (shutdownAll rest (refusing_S1, managing [] []))))
       = [session ''S1'' ''/one'', session ''S2'' ''/two'']"
  by (simp add: example_defs identical_def deepEqual_def refreshRunning_def new_Map_def emit_def
        running_def)

text \<open>
  C6, as amended. \<^verbatim>\<open>shutdown(id)\<close> issues the stop call. When the stop call
  succeeds, a refresh follows: the outcome and the states are those of
  \<^verbatim>\<open>refreshRunning\<close> after the stop call, whose list call is the next entry of
  the log. When the stop call fails, its error is the outcome and nothing else
  happens: no refresh is made and the manager is as before, but for the logged stop
  call.
\<close>

theorem shutdown_refresh_only_after_success:
  "(\<forall>srv'. shutdownSession env i srv = (Inr (), srv') \<longrightarrow>
       shutdown env i (srv, m) =
         refreshRunning env (srv', m\<lparr>trace := trace m @ [ShutdownSession i]\<rparr>)
       \<and> (\<exists>es. trace (snd (snd (shutdown env i (srv, m)))) =
                 trace m @ ShutdownSession i # ListRunning # es \<and> ListRunning \<notin> set es))
   \<and> (\<forall>err srv'. shutdownSession env i srv = (Inl err, srv') \<longrightarrow>
       shutdown env i (srv, m) = (Inl err, srv', m\<lparr>trace := trace m @ [ShutdownSession i]\<rparr>))"
proof (intro conjI allI impI)
  fix srv' assume ok: "shutdownSession env i srv = (Inr (), srv')"
  then show run: "shutdown env i (srv, m) =
      refreshRunning env (srv', m\<lparr>trace := trace m @ [ShutdownSession i]\<rparr>)"
    by (simp add: emit_def)
  from refreshRunning_trace [of env srv' "m\<lparr>trace := trace m @ [ShutdownSession i]\<rparr>"]
  show "\<exists>es. trace (snd (snd (shutdown env i (srv, m)))) =
                 trace m @ ShutdownSession i # ListRunning # es \<and> ListRunning \<notin> set es"
    by (simp add: run del: shutdown.simps)
next
  fix err srv' assume "shutdownSession env i srv = (Inl err, srv')"
  then show "shutdown env i (srv, m) = (Inl err, srv', m\<lparr>trace := trace m @ [ShutdownSession i]\<rparr>)"
    by (simp add: emit_def)
qed

theorem shutdown_refresh_only_after_success_witness:
  "shutdownSession rest ''S2'' refusing_S1 = (Inr (), refusing_S1\<lparr>sessions := [session ''S1'' ''/one'']\<rparr>)
   \<and> shutdown rest ''S2'' (refusing_S1, managing two_sessions [conn 1 ''S2'']) =
       (Inr (), refusing_S1\<lparr>sessions := [session ''S1'' ''/one'']\<rparr>,
        \<lparr>models = [(''S1'', session ''S1'' ''/one'')], sessionConnections = [],
         isDisposed = False,
         trace = [ShutdownSession ''S2'', ListRunning, ConnectionDispose 1, RefreshRequested,
                  RunningChanged [session ''S1'' ''/one'']]\<rparr>)
   \<and> shutdownSession rest ''S1'' refusing_S1 = (Inl (OtherError ''refused''), refusing_S1)
   \<and> shutdown rest ''S1'' (refusing_S1, managing two_sessions [conn 1 ''S2'']) =
       (Inl (OtherError ''refused''), refusing_S1,
        (managing two_sessions [conn 1 ''S2''])\<lparr>trace := [ShutdownSession ''S1'']\<rparr>)"
  using shutdown_refresh_only_after_success [of rest "''S2''" refusing_S1 "managing two_sessions [conn 1 ''S2'']"]
    shutdown_refresh_only_after_success [of rest "''S1''" refusing_S1 "managing two_sessions [conn 1 ''S2'']"]
  by (simp add: example_defs identical_def deepEqual_def refreshRunning_def new_Map_def emit_def
        reconcile_def sc_dispose_def
        onDisposed_def)

text \<open>
  The claim as it stands fails when the stop call fails: the manager still believes
  in a session \<open>S3\<close> that the server no longer has, the stop call for \<open>S1\<close> is refused,
  and \<^verbatim>\<open>shutdown\<close> is rejected without a list call; \<^verbatim>\<open>running()\<close> still
  lists \<open>S3\<close>.
\<close>

theorem shutdown_failed_stop_counterexample:
  "shutdown rest ''S1'' (refusing_S1, managing (session ''S3'' ''/three'' # two_sessions) []) =
     (Inl (OtherError ''refused''), refusing_S1,
      (managing (session ''S3'' ''/three'' # two_sessions) [])\<lparr>trace := [ShutdownSession ''S1'']\<rparr>)
   \<and> ListRunning \<notin> set (trace (snd (snd
        (shutdown rest ''S1'' (refusing_S1, managing (session ''S3'' ''/three'' # two_sessions) [])))))
   \<and> session ''S3'' ''/three'' \<in> set (running (snd (snd
        (shutdown rest ''S1'' (refusing_S1, managing (session ''S3'' ''/three'' # two_sessions) [])))))
   \<and> session ''S3'' ''/three'' \<notin> set (sessions refusing_S1)"
  by (simp add: example_defs emit_def running_def)

lemma shutdown_trace:
  "\<exists>es. trace (snd (snd (shutdown env i (srv, m)))) = trace m @ ShutdownSession i # es"
proof (cases "shutdownSession env i srv")
  case (Pair r srv')
  show ?thesis
  proof (cases r)
    case (Inl err)
    with Pair show ?thesis by (simp add: emit_def)
  next
    case (Inr u)
    with Pair refreshRunning_trace [of env srv' "emit (ShutdownSession i) m"]
    show ?thesis by (auto simp add: emit_def)
  qed
qed

text \<open>
  C7. \<^verbatim>\<open>stopIfNeeded(path)\<close> is always fulfilled. It lists the sessions once. When
  the listing fails, or when the number of listed sessions with that path is not one
  (two or more in particular), it does nothing else: no stop call is made. When
  exactly one listed session has the path, \<^verbatim>\<open>shutdown\<close> is called with that
  session's identifier, so the stop call for it is the next entry of the log; when
  that stop call fails, nothing follows it.
\<close>

theorem stopIfNeeded_best_effort:
  "fst (stopIfNeeded env p (srv, m)) = Inr ()
   \<and> (\<forall>err srv'. listRunning env srv = (Inl err, srv') \<longrightarrow>
         stopIfNeeded env p (srv, m) = (Inr (), srv', m\<lparr>trace := trace m @ [ListRunning]\<rparr>))
   \<and> (\<forall>found srv'. listRunning env srv = (Inr found, srv') \<and>
           length (filter (\<lambda>x. model_path x = p) found) \<noteq> 1 \<longrightarrow>
         stopIfNeeded env p (srv, m) = (Inr (), srv', m\<lparr>trace := trace m @ [ListRunning]\<rparr>))
   \<and> (\<forall>found srv' x. listRunning env srv = (Inr found, srv') \<and>
           filter (\<lambda>x. model_path x = p) found = [x] \<longrightarrow>
         snd (stopIfNeeded env p (srv, m)) =
           snd (shutdown env (model_id x) (srv', m\<lparr>trace := trace m @ [ListRunning]\<rparr>))
         \<and> (\<exists>es. trace (snd (snd (stopIfNeeded env p (srv, m)))) =
                   trace m @ ListRunning # ShutdownSession (model_id x) # es)
         \<and> (\<forall>err srv''. shutdownSession env (model_id x) srv' = (Inl err, srv'') \<longrightarrow>
               stopIfNeeded env p (srv, m) =
                 (Inr (), srv'', m\<lparr>trace := trace m @ [ListRunning, ShutdownSession (model_id x)]\<rparr>)))"
proof (intro conjI allI impI)
  show "fst (stopIfNeeded env p (srv, m)) = Inr ()"
    by (simp add: split_beta split: prod.splits sum.splits list.splits)
next
  fix err srv' assume "listRunning env srv = (Inl err, srv')"
  then show "stopIfNeeded env p (srv, m) = (Inr (), srv', m\<lparr>trace := trace m @ [ListRunning]\<rparr>)"
    by (simp add: emit_def)
next
  fix found srv'
  assume "listRunning env srv = (Inr found, srv') \<and>
          length (filter (\<lambda>x. model_path x = p) found) \<noteq> 1"
  then show "stopIfNeeded env p (srv, m) = (Inr (), srv', m\<lparr>trace := trace m @ [ListRunning]\<rparr>)"
    by (auto simp add: emit_def simp del: shutdown.simps split: list.splits)
next
  fix found srv' x
  assume one: "listRunning env srv = (Inr found, srv') \<and>
          filter (\<lambda>x. model_path x = p) found = [x]"
  then have run: "stopIfNeeded env p (srv, m) =
      (Inr (), snd (shutdown env (model_id x) (srv', m\<lparr>trace := trace m @ [ListRunning]\<rparr>)))"
    by (simp add: emit_def split_beta del: shutdown.simps)
  then show "snd (stopIfNeeded env p (srv, m)) =
      snd (shutdown env (model_id x) (srv', m\<lparr>trace := trace m @ [ListRunning]\<rparr>))"
    by (simp del: shutdown.simps stopIfNeeded.simps)
  from shutdown_trace [of env "model_id x" srv' "m\<lparr>trace := trace m @ [ListRunning]\<rparr>"]
  show "\<exists>es. trace (snd (snd (stopIfNeeded env p (srv, m)))) =
                   trace m @ ListRunning # ShutdownSession (model_id x) # es"
    by (simp add: run del: shutdown.simps stopIfNeeded.simps)
  fix err srv'' assume "shutdownSession env (model_id x) srv' = (Inl err, srv'')"
  then show "stopIfNeeded env p (srv, m) =
      (Inr (), srv'', m\<lparr>trace := trace m @ [ListRunning, ShutdownSession (model_id x)]\<rparr>)"
    by (simp add: run emit_def del: stopIfNeeded.simps)
qed

theorem stopIfNeeded_best_effort_witness:
  "listRunning rest (serving [session ''X'' ''/doc'', session ''Y'' ''/doc''])
     = (Inr [session ''X'' ''/doc'', session ''Y'' ''/doc''],
        serving [session ''X'' ''/doc'', session ''Y'' ''/doc''])
   \<and> length (filter (\<lambda>x. model_path x = ''/doc'') [session ''X'' ''/doc'', session ''Y'' ''/doc'']) = 2
   \<and> stopIfNeeded rest ''/doc'' (serving [session ''X'' ''/doc'', session ''Y'' ''/doc''], managing [] [])
     = (Inr (), serving [session ''X'' ''/doc'', session ''Y'' ''/doc''],
        (managing [] [])\<lparr>trace := [ListRunning]\<rparr>)
   \<and> listRunning rest refusing_S1 = (Inr two_sessions, refusing_S1)
   \<and> filter (\<lambda>x. model_path x = ''/two'') two_sessions = [session ''S2'' ''/two'']
   \<and> stopIfNeeded rest ''/two'' (refusing_S1, managing two_sessions [])
     = (Inr (), refusing_S1\<lparr>sessions := [session ''S1'' ''/one'']\<rparr>,
        \<lparr>models = [(''S1'', session ''S1'' ''/one'')], sessionConnections = [], isDisposed = False,
         trace = [ListRunning, ShutdownSession ''S2'', ListRunning,
                  RunningChanged [session ''S1'' ''/one'']]\<rparr>)
   \<and> filter (\<lambda>x. model_path x = ''/one'') two_sessions = [session ''S1'' ''/one'']
   \<and> shutdownSession rest (model_id (session ''S1'' ''/one'')) refusing_S1
     = (Inl (OtherError ''refused''), refusing_S1)
   \<and> stopIfNeeded rest ''/one'' (refusing_S1, managing two_sessions [])
     = (Inr (), refusing_S1,
        (managing two_sessions [])\<lparr>trace := [ListRunning, ShutdownSession ''S1'']\<rparr>)
   \<and> listRunning rest (refusing_S1\<lparr>list_failure := Some (NetworkError ''offline'')\<rparr>)
     = (Inl (NetworkError ''offline''), refusing_S1\<lparr>list_failure := Some (NetworkError ''offline'')\<rparr>)
   \<and> stopIfNeeded rest ''/two''
        (refusing_S1\<lparr>list_failure := Some (NetworkError ''offline'')\<rparr>, managing two_sessions [])
     = (Inr (), refusing_S1\<lparr>list_failure := Some (NetworkError ''offline'')\<rparr>,
        (managing two_sessions [])\<lparr>trace := [ListRunning]\<rparr>)"
  using stopIfNeeded_best_effort
      [of rest "''/doc''" "serving [session ''X'' ''/doc'', session ''Y'' ''/doc'']" "managing [] []"]
    stopIfNeeded_best_effort [of rest "''/two''" refusing_S1 "managing two_sessions []"]
    stopIfNeeded_best_effort [of rest "''/one''" refusing_S1 "managing two_sessions []"]
    stopIfNeeded_best_effort
      [of rest "''/two''" "refusing_S1\<lparr>list_failure := Some (NetworkError ''offline'')\<rparr>"
          "managing two_sessions []"]
  by (simp add: example_defs identical_def deepEqual_def refreshRunning_def new_Map_def emit_def)

lemma refreshRunning_lists_once:
  "count_list (trace (snd (snd (refreshRunning env (srv, m))))) ListRunning =
     Suc (count_list (trace m) ListRunning)"
proof -
  from refreshRunning_trace [of env srv m]
  obtain es where "trace (snd (snd (refreshRunning env (srv, m)))) = trace m @ ListRunning # es"
    and "ListRunning \<notin> set es" by blast
  then show ?thesis by simp
qed

text \<open>
  C8. \<^verbatim>\<open>findById\<close> returns the model the map has for the identifier and does
  nothing else. When the map has none, it refreshes exactly once (the states are
  those of one \<^verbatim>\<open>refreshRunning\<close>, which makes one list call) and, the refresh
  fulfilled, returns what the refreshed map has for the identifier, nothing if there
  is still no entry; a rejected refresh is passed on. \<^verbatim>\<open>findByPath\<close> does the
  same with the first model of the map, in the map's order, that has the path.
\<close>

theorem find_cached_or_refresh_once:
  "(\<forall>x. map_of (models m) i = Some x \<longrightarrow> findById env i (srv, m) = (Inr (Some x), srv, m))
   \<and> (map_of (models m) i = None \<longrightarrow>
        snd (findById env i (srv, m)) = snd (refreshRunning env (srv, m))
        \<and> count_list (trace (snd (snd (findById env i (srv, m))))) ListRunning =
            Suc (count_list (trace m) ListRunning)
        \<and> (\<forall>srv' m'. refreshRunning env (srv, m) = (Inr (), srv', m') \<longrightarrow>
              findById env i (srv, m) = (Inr (map_of (models m') i), srv', m'))
        \<and> (\<forall>err s'. refreshRunning env (srv, m) = (Inl err, s') \<longrightarrow>
              findById env i (srv, m) = (Inl err, s')))
   \<and> (\<forall>x. find (\<lambda>x. model_path x = p) (running m) = Some x \<longrightarrow>
        findByPath env p (srv, m) = (Inr (Some x), srv, m))
   \<and> (find (\<lambda>x. model_path x = p) (running m) = None \<longrightarrow>
        snd (findByPath env p (srv, m)) = snd (refreshRunning env (srv, m))
        \<and> count_list (trace (snd (snd (findByPath env p (srv, m))))) ListRunning =
            Suc (count_list (trace m) ListRunning)
        \<and> (\<forall>srv' m'. refreshRunning env (srv, m) = (Inr (), srv', m') \<longrightarrow>
              findByPath env p (srv, m) =
                (Inr (find (\<lambda>x. model_path x = p) (running m')), srv', m'))
        \<and> (\<forall>err s'. refreshRunning env (srv, m) = (Inl err, s') \<longrightarrow>
              findByPath env p (srv, m) = (Inl err, s')))"
proof -
  have by_id: "snd (findById env i (srv, m)) = snd (refreshRunning env (srv, m))"
    if "map_of (models m) i = None"
    using that by (simp split: prod.splits sum.splits)
  have by_path: "snd (findByPath env p (srv, m)) = snd (refreshRunning env (srv, m))"
    if "find (\<lambda>x. model_path x = p) (running m) = None"
    using that by (simp add: running_def split: prod.splits sum.splits)
  show ?thesis
    by (intro conjI allI impI)
      (simp_all add: by_id by_path refreshRunning_lists_once del: findById.simps findByPath.simps,
       simp_all add: running_def)
qed

theorem find_cached_or_refresh_once_witness:
  "map_of (models (managing two_sessions [])) ''S1'' = Some (session ''S1'' ''/one'')
   \<and> findById rest ''S1'' (serving [], managing two_sessions [])
       = (Inr (Some (session ''S1'' ''/one'')), serving [], managing two_sessions [])
   \<and> find (\<lambda>x. model_path x = ''/two'') (running (managing two_sessions []))
       = Some (session ''S2'' ''/two'')
   \<and> findByPath rest ''/two'' (serving [], managing two_sessions [])
       = (Inr (Some (session ''S2'' ''/two'')), serving [], managing two_sessions [])
   \<and> map_of (models (managing [] [])) ''S2'' = None
   \<and> find (\<lambda>x. model_path x = ''/two'') (running (managing [] [])) = None
   \<and> refreshRunning rest (serving two_sessions, managing [] [])
       = (Inr (), serving two_sessions,
          (managing two_sessions [])\<lparr>trace := [ListRunning, RunningChanged two_sessions]\<rparr>)
   \<and> findById rest ''S2'' (serving two_sessions, managing [] [])
       = (Inr (Some (session ''S2'' ''/two'')), serving two_sessions,
          (managing two_sessions [])\<lparr>trace := [ListRunning, RunningChanged two_sessions]\<rparr>)
   \<and> findByPath rest ''/two'' (serving two_sessions, managing [] [])
       = (Inr (Some (session ''S2'' ''/two'')), serving two_sessions,
          (managing two_sessions [])\<lparr>trace := [ListRunning, RunningChanged two_sessions]\<rparr>)
   \<and> findById rest ''S9'' (serving two_sessions, managing [] [])
       = (Inr None, serving two_sessions,
          (managing two_sessions [])\<lparr>trace := [ListRunning, RunningChanged two_sessions]\<rparr>)
   \<and> findByPath rest ''/nine'' (serving two_sessions, managing [] [])
       = (Inr None, serving two_sessions,
          (managing two_sessions [])\<lparr>trace := [ListRunning, RunningChanged two_sessions]\<rparr>)
   \<and> refreshRunning rest ((serving [])\<lparr>list_failure := Some (OtherError ''bad'')\<rparr>, managing [] [])
       = (Inl (OtherError ''bad''), (serving [])\<lparr>list_failure := Some (OtherError ''bad'')\<rparr>,
          (managing [] [])\<lparr>trace := [ListRunning]\<rparr>)
   \<and> findById rest ''S2'' ((serving [])\<lparr>list_failure := Some (OtherError ''bad'')\<rparr>, managing [] [])
       = (Inl (OtherError ''bad''), (serving [])\<lparr>list_failure := Some (OtherError ''bad'')\<rparr>,
          (managing [] [])\<lparr>trace := [ListRunning]\<rparr>)
   \<and> findByPath rest ''/two'' ((serving [])\<lparr>list_failure := Some (OtherError ''bad'')\<rparr>, managing [] [])
       = (Inl (OtherError ''bad''), (serving [])\<lparr>list_failure := Some (OtherError ''bad'')\<rparr>,
          (managing [] [])\<lparr>trace := [ListRunning]\<rparr>)"
  using find_cached_or_refresh_once [of "managing two_sessions []" "''S1''" rest "serving []" "''/two''"]
    find_cached_or_refresh_once [of "managing [] []" "''S2''" rest "serving two_sessions" "''/two''"]
    find_cached_or_refresh_once [of "managing [] []" "''S9''" rest "serving two_sessions" "''/nine''"]
    find_cached_or_refresh_once
      [of "managing [] []" "''S2''" rest "(serving [])\<lparr>list_failure := Some (OtherError ''bad'')\<rparr>"
          "''/two''"]
  by (simp add: example_defs identical_def deepEqual_def refreshRunning_def new_Map_def emit_def
        running_def)

end
